theory Spec2Isabelle
  imports Complex_Main
begin

section \<open>Instrumental variables notebook: the model\<close>

text \<open>
  The notebook defines two helpers, \<open>coefficient_to_odds_ratio\<close> and \<open>ate_odds_ratio\<close>,
  and then runs a linear sequence of cells over one data frame, \<open>voucher_df\<close>. The helper
  functions are the same in both copies of the notebook; the arguments of the calls and the
  regression formulas are those of the completed copy (the exercise copy leaves them as
  \<open>...\<close>).

  Python's floats are modelled as real numbers and \<open>+\<close>, \<open>-\<close>, \<open>/\<close> as the exact
  operations, so the rounding of IEEE doubles is outside this development, and so are
  missing values in the table. What is kept of Python's arithmetic is what changes the
  outcome of a call: true division of a float by zero raises \<open>ZeroDivisionError\<close>
  instead of returning a value, and \<open>math.exp\<close> leaves the range of doubles at both ends,
  raising \<open>OverflowError\<close> above it and returning \<open>0.0\<close> below it.
\<close>

subsection \<open>Errors and values\<close>

datatype py_error =
  ZeroDivisionError | OverflowError | KeyError | ValueError | IndexError | NameError
| PatsyError | PerfectSeparationError

text \<open>What a call evaluates to: a function body that ends without \<open>return\<close> gives \<open>None\<close>.\<close>

datatype py_value = PyNone | PyFloat real

definition py_bind :: "'e + 'a \<Rightarrow> ('a \<Rightarrow> 'e + 'b) \<Rightarrow> 'e + 'b" where
  "py_bind m f = (case m of Inl e \<Rightarrow> Inl e | Inr x \<Rightarrow> f x)"

text \<open>\<open>a / b\<close> on Python floats.\<close>

definition truediv :: "real \<Rightarrow> real \<Rightarrow> py_error + real" where
  "truediv a b = (if b = 0 then Inl ZeroDivisionError else Inr (a / b))"

text \<open>
  \<open>math.exp(x)\<close>. The largest double is \<open>(2 - 1 / 2 ^ 52) * 2 ^ 1023\<close>; the exponential
  lies above it for \<open>x\<close> from about 709.78 upwards, and the call then raises
  \<open>OverflowError\<close>. The smallest positive double is \<open>1 / 2 ^ 1074\<close>; the exponential lies
  below half of it for \<open>x\<close> from about -745.13 downwards, and the call then returns
  \<open>0.0\<close>. In between the value is the exact exponential.
\<close>

definition max_double :: real where
  "max_double = (2 - 1 / 2 ^ 52) * 2 ^ 1023"

definition underflow_bound :: real where
  "underflow_bound = 1 / 2 ^ 1075"

definition math_exp :: "real \<Rightarrow> py_error + real" where
  "math_exp x =
     (if max_double < exp x then Inl OverflowError
      else if exp x < underflow_bound then Inr 0
      else Inr (exp x))"

subsection \<open>Data frames\<close>

text \<open>
  A data frame is its columns in order, each a name and the values of its rows. In a frame
  built by pandas the names are distinct and all columns have the same length.
\<close>

type_synonym column = "real list"

type_synonym dataframe = "(string \<times> column) list"

text \<open>\<open>df[name]\<close>.\<close>

definition getitem :: "dataframe \<Rightarrow> string \<Rightarrow> py_error + column" where
  "getitem df name = (case map_of df name of None \<Rightarrow> Inl KeyError | Some c \<Rightarrow> Inr c)"

definition nrows :: "dataframe \<Rightarrow> nat" where
  "nrows df = (case df of [] \<Rightarrow> 0 | (n, c) # rest \<Rightarrow> length c)"

text \<open>
  \<open>df[name] = vals\<close>: an existing column is replaced where it stands, a new one is put
  after the last; values that do not fit the frame's rows are refused.
\<close>

fun set_column :: "dataframe \<Rightarrow> string \<Rightarrow> column \<Rightarrow> dataframe" where
  "set_column [] name vals = [(name, vals)]"
| "set_column ((n, c) # df) name vals =
     (if n = name then (name, vals) # df else (n, c) # set_column df name vals)"

definition setitem :: "dataframe \<Rightarrow> string \<Rightarrow> column \<Rightarrow> py_error + dataframe" where
  "setitem df name vals =
     (if df \<noteq> [] \<and> length vals \<noteq> nrows df then Inl ValueError
      else Inr (set_column df name vals))"

text \<open>\<open>df[mask]\<close> with a Boolean mask: a new frame of the rows where the mask holds.\<close>

definition select_rows :: "dataframe \<Rightarrow> bool list \<Rightarrow> dataframe" where
  "select_rows df keep = map (\<lambda>(n, c). (n, map snd (filter fst (zip keep c)))) df"

text \<open>\<open>df.head()\<close>: a new frame of the first five rows.\<close>

definition head :: "dataframe \<Rightarrow> dataframe" where
  "head df = map (\<lambda>(n, c). (n, take 5 c)) df"

subsection \<open>Binomial regression\<close>

text \<open>
  A formula \<open>"y ~ a + b + c"\<close>, parsed: the response and the regressors. The design matrix
  has one row per row of the frame, the intercept's 1 first.
\<close>

record formula =
  response :: string
  regressors :: "string list"

record glm_result =
  params :: "real list"
  exog :: "real list list"
  endog :: "real list"

text \<open>The variables of a formula are looked up in the frame; an unknown name is refused.\<close>

definition lookup_variable :: "dataframe \<Rightarrow> string \<Rightarrow> py_error + column" where
  "lookup_variable df v = (case map_of df v of None \<Rightarrow> Inl PatsyError | Some c \<Rightarrow> Inr c)"

fun lookup_variables :: "dataframe \<Rightarrow> string list \<Rightarrow> py_error + column list" where
  "lookup_variables df [] = Inr []"
| "lookup_variables df (v # vs) =
     py_bind (lookup_variable df v) (\<lambda>c.
     py_bind (lookup_variables df vs) (\<lambda>cs. Inr (c # cs)))"

definition design_matrix :: "column list \<Rightarrow> nat \<Rightarrow> real list list" where
  "design_matrix cols n = map (\<lambda>i. 1 # map (\<lambda>c. c ! i) cols) [0..<n]"

text \<open>
  \<open>smf.glm(formula, data, family=sm.families.Binomial()).fit()\<close>. The estimation of the
  coefficients from the design matrix and the response (iteratively reweighted least
  squares, in the statistics library) is the parameter \<open>fit\<close>; it may raise. The row count
  \<open>n\<close> is the common length of the columns.
\<close>

definition glm_fit ::
  "(real list list \<Rightarrow> real list \<Rightarrow> py_error + real list) \<Rightarrow> formula \<Rightarrow> dataframe
     \<Rightarrow> py_error + glm_result" where
  "glm_fit fit f df =
     py_bind (lookup_variable df (response f)) (\<lambda>y.
     py_bind (lookup_variables df (regressors f)) (\<lambda>cols.
       let n = foldr (\<lambda>c m. min (length c) m) cols (length y);
           X = design_matrix cols n
       in py_bind (fit X (take n y)) (\<lambda>beta.
            Inr \<lparr>params = beta, exog = X, endog = take n y\<rparr>)))"

text \<open>
  Modelled from the spec: the inverse of the logistic link of the statistics library,
  which is not part of the repository. The spec has the regressions as binomial
  (logistic) generalized linear models.
\<close>

definition logistic :: "real \<Rightarrow> real" where
  "logistic eta = 1 / (1 + exp (- eta))"

text \<open>
  Modelled from the spec: the linear predictor of a row of the design matrix, the sum of
  its entries times the coefficients; computed in the statistics library.
\<close>

definition linear_predictor :: "real list \<Rightarrow> real list \<Rightarrow> real" where
  "linear_predictor beta row = sum_list (map (\<lambda>(x, b). x * b) (zip row beta))"

text \<open>
  Modelled from the spec: \<open>result.predict()\<close> of the statistics library. The spec has
  the stage-1 prediction as the fitted probability of the binomial model: for each row of
  the design matrix the logistic function of its linear predictor.
\<close>

definition predict :: "glm_result \<Rightarrow> column" where
  "predict r = map (\<lambda>row. logistic (linear_predictor (params r) row)) (exog r)"

text \<open>\<open>result.params[i]\<close>.\<close>

definition params_at :: "glm_result \<Rightarrow> nat \<Rightarrow> py_error + real" where
  "params_at r i = (if i < length (params r) then Inr (params r ! i) else Inl IndexError)"

subsection \<open>Standard output\<close>

text \<open>
  What a cell shows. \<open>Line s\<close> is \<open>print(s)\<close> of a string; \<open>Formatted t x\<close> is
  \<open>print(t.format(x))\<close>, the template \<open>t\<close> with the float \<open>x\<close> in its only slot;
  \<open>Describe df\<close> is \<open>print(df.describe())\<close> and \<open>Summary r\<close> is
  \<open>print(r.summary())\<close>; \<open>Display_float\<close> and \<open>Display_frame\<close> are the value of a
  cell's last expression. The rendering of floats and tables as text is not modelled.
\<close>

datatype printed =
  Line string
| Formatted string real
| Describe dataframe
| Summary glm_result
| Display_float real
| Display_frame dataframe

type_synonym stdout = "printed list"

text \<open>The outcome of a call: the value returned or the exception raised, and standard output.\<close>

type_synonym outcome = "(py_error + py_value) \<times> stdout"

subsection \<open>\<open>coefficient_to_odds_ratio\<close>\<close>

text \<open>
  \<^verbatim>\<open>
  def coefficient_to_odds_ratio(coefficient):
      odds = math.exp(coefficient)
      print("Those using financial aid are {:2f} times more likely to finish the 8th grade!".format(odds))
  \<close>
  \<open>coefficient_odds\<close> is the evaluation of the right-hand side bound to the local
  variable \<open>odds\<close>. When it raises, nothing is printed.
\<close>

definition coefficient_odds :: "real \<Rightarrow> py_error + real" where
  "coefficient_odds coefficient = math_exp coefficient"

definition likely_template :: string where
  "likely_template =
     ''Those using financial aid are {:2f} times more likely to finish the 8th grade!''"

definition coefficient_to_odds_ratio :: "real \<Rightarrow> stdout \<Rightarrow> outcome" where
  "coefficient_to_odds_ratio coefficient out =
     (case coefficient_odds coefficient of
        Inl e \<Rightarrow> (Inl e, out)
      | Inr odds \<Rightarrow> (Inr PyNone, out @ [Formatted likely_template odds]))"

subsection \<open>\<open>ate_odds_ratio\<close>\<close>

text \<open>
  \<^verbatim>\<open>
  def ate_odds_ratio(prob0, prob1):
      odds = (prob1/(1-prob1)) - (prob0/(1-prob0))
      print("Odds ratio: {}".format(odds))
  \<close>
  \<open>ate_odds\<close> is the evaluation of the right-hand side bound to \<open>odds\<close>, left operand
  first, so that a zero divisor in the first quotient is met before the second quotient is
  looked at. When it raises, nothing is printed.
\<close>

definition ate_odds :: "real \<Rightarrow> real \<Rightarrow> py_error + real" where
  "ate_odds prob0 prob1 =
     (case truediv prob1 (1 - prob1) of
        Inl e \<Rightarrow> Inl e
      | Inr a \<Rightarrow>
          (case truediv prob0 (1 - prob0) of
             Inl e \<Rightarrow> Inl e
           | Inr b \<Rightarrow> Inr (a - b)))"

definition ate_odds_ratio :: "real \<Rightarrow> real \<Rightarrow> stdout \<Rightarrow> outcome" where
  "ate_odds_ratio prob0 prob1 out =
     (case ate_odds prob0 prob1 of
        Inl e \<Rightarrow> (Inl e, out)
      | Inr odds \<Rightarrow> (Inr PyNone, out @ [Formatted ''Odds ratio: {}'' odds]))"

subsection \<open>The cells\<close>

text \<open>
  The kernel's state: the global variables the cells assign, and what has been shown so
  far. A variable that is not yet bound is \<open>None\<close>, and reading it raises \<open>NameError\<close>.
  A cell that raises aborts the run.
\<close>

record kernel =
  voucher_df :: "dataframe option"
  ate :: "real option"
  result :: "glm_result option"
  shown :: stdout

definition table :: "kernel \<Rightarrow> py_error + dataframe" where
  "table k = (case voucher_df k of None \<Rightarrow> Inl NameError | Some df \<Rightarrow> Inr df)"

definition banner :: string where
  "banner = ''==============================================================================''"

definition fitted_column :: string where
  "fitted_column = ''use_fin_aid_fitted''"

text \<open>
  \<open>voucher_df = pd.read_sas('colvoucher.sas7bdat'); voucher_df.head()\<close>. The table read
  from the file is the parameter \<open>file\<close>.
\<close>

definition load_cell :: "dataframe \<Rightarrow> kernel \<Rightarrow> py_error + kernel" where
  "load_cell file k =
     Inr (k\<lparr>voucher_df := Some file, shown := shown k @ [Display_frame (head file)]\<rparr>)"

text \<open>
  The summary statistics: the whole table, then \<open>for i in range(2)\<close> the rows with
  \<open>use_fin_aid == i\<close>. The title line is \<open>"... = %(i)d" % {"i": i}\<close>.
\<close>

definition decimal_digit :: "nat \<Rightarrow> string" where
  "decimal_digit i = [char_of (48 + i)]"

definition describe_group :: "nat \<Rightarrow> kernel \<Rightarrow> py_error + kernel" where
  "describe_group i k =
     py_bind (table k) (\<lambda>df.
     py_bind (getitem df ''use_fin_aid'') (\<lambda>col.
       Inr (k\<lparr>shown := shown k @
              [Line banner,
               Line (''                         USE FINANCIAL AID = '' @ decimal_digit i),
               Line banner,
               Describe (select_rows df (map (\<lambda>x. x = real i) col))]\<rparr>)))"

primrec for_each :: "nat list \<Rightarrow> (nat \<Rightarrow> kernel \<Rightarrow> py_error + kernel) \<Rightarrow> kernel
    \<Rightarrow> py_error + kernel" where
  "for_each [] body k = Inr k"
| "for_each (i # is) body k = py_bind (body i k) (for_each is body)"

definition summary_cell :: "kernel \<Rightarrow> py_error + kernel" where
  "summary_cell k =
     py_bind (table k) (\<lambda>df.
       for_each [0..<2] describe_group
         (k\<lparr>shown := shown k @
            [Line banner,
             Line ''                              OVERALL SUMMARY'',
             Line banner,
             Describe df]\<rparr>))"

text \<open>\<open>ate = 0.737151 - 0.604082; ate\<close>.\<close>

definition ate_cell :: "kernel \<Rightarrow> py_error + kernel" where
  "ate_cell k =
     (let a = 0.737151 - 0.604082
      in Inr (k\<lparr>ate := Some a, shown := shown k @ [Display_float a]\<rparr>))"

text \<open>\<open>ate_odds_ratio(0.604082, 0.737151)\<close>; its value \<open>None\<close> is not displayed.\<close>

definition ate_odds_cell :: "kernel \<Rightarrow> py_error + kernel" where
  "ate_odds_cell k =
     (case ate_odds_ratio 0.604082 0.737151 (shown k) of
        (Inl e, out) \<Rightarrow> Inl e
      | (Inr v, out) \<Rightarrow> Inr (k\<lparr>shown := out\<rparr>))"

text \<open>The naive regression, \<open>" finish8th ~ use_fin_aid + male + base_age"\<close>.\<close>

definition naive_formula :: formula where
  "naive_formula =
     \<lparr>response = ''finish8th'', regressors = [''use_fin_aid'', ''male'', ''base_age'']\<rparr>"

definition naive_cell ::
  "(real list list \<Rightarrow> real list \<Rightarrow> py_error + real list) \<Rightarrow> kernel \<Rightarrow> py_error + kernel" where
  "naive_cell fit k =
     py_bind (table k) (\<lambda>df.
     py_bind (glm_fit fit naive_formula df) (\<lambda>r.
       Inr (k\<lparr>result := Some r,
              shown := shown k @
                [Line banner,
                 Line ''                            LOGISTIC REGRESSION'',
                 Line banner,
                 Summary r]\<rparr>)))"

text \<open>\<open>coefficient_to_odds_ratio(result.params[1])\<close>, after either regression.\<close>

definition odds_cell :: "kernel \<Rightarrow> py_error + kernel" where
  "odds_cell k =
     (case result k of
        None \<Rightarrow> Inl NameError
      | Some r \<Rightarrow>
          py_bind (params_at r 1) (\<lambda>c.
            case coefficient_to_odds_ratio c (shown k) of
              (Inl e, out) \<Rightarrow> Inl e
            | (Inr v, out) \<Rightarrow> Inr (k\<lparr>shown := out\<rparr>)))"

text \<open>
  Stage 1, \<open>"use_fin_aid ~ won_lottry + male + base_age"\<close>, with the one assignment to
  the table: \<open>voucher_df['use_fin_aid_fitted'] = result.predict()\<close>.
\<close>

definition first_stage_formula :: formula where
  "first_stage_formula =
     \<lparr>response = ''use_fin_aid'', regressors = [''won_lottry'', ''male'', ''base_age'']\<rparr>"

definition first_stage ::
  "(real list list \<Rightarrow> real list \<Rightarrow> py_error + real list) \<Rightarrow> kernel \<Rightarrow> py_error + kernel" where
  "first_stage fit k =
     py_bind (table k) (\<lambda>df.
     py_bind (glm_fit fit first_stage_formula df) (\<lambda>r.
     py_bind (setitem df fitted_column (predict r)) (\<lambda>df'.
       Inr (k\<lparr>voucher_df := Some df',
              result := Some r,
              shown := shown k @
                [Line banner,
                 Line ''                                  FIRST STAGE'',
                 Line banner,
                 Summary r]\<rparr>))))"

text \<open>Stage 2, \<open>" finish8th ~ use_fin_aid_fitted + male + base_age"\<close>.\<close>

definition second_stage_formula :: formula where
  "second_stage_formula =
     \<lparr>response = ''finish8th'',
      regressors = [''use_fin_aid_fitted'', ''male'', ''base_age'']\<rparr>"

definition second_stage ::
  "(real list list \<Rightarrow> real list \<Rightarrow> py_error + real list) \<Rightarrow> kernel \<Rightarrow> py_error + kernel" where
  "second_stage fit k =
     py_bind (table k) (\<lambda>df.
     py_bind (glm_fit fit second_stage_formula df) (\<lambda>r.
       Inr (k\<lparr>result := Some r,
              shown := shown k @
                [Line [], Line [],
                 Line banner,
                 Line ''                                  SECOND STAGE'',
                 Line banner,
                 Summary r]\<rparr>)))"

text \<open>
  The cells after the load, in the notebook's order, and a run of a list of cells. The
  completed copy has the two stages in one cell; the exercise copy has them in two.
\<close>

definition cells ::
  "(real list list \<Rightarrow> real list \<Rightarrow> py_error + real list) \<Rightarrow> (kernel \<Rightarrow> py_error + kernel) list"
  where
  "cells fit =
     [summary_cell, ate_cell, ate_odds_cell, naive_cell fit, odds_cell,
      first_stage fit, second_stage fit, odds_cell]"

primrec run :: "(kernel \<Rightarrow> py_error + kernel) list \<Rightarrow> kernel \<Rightarrow> py_error + kernel" where
  "run [] k = Inr k"
| "run (c # cs) k = py_bind (c k) (run cs)"

definition run_all ::
  "(real list list \<Rightarrow> real list \<Rightarrow> py_error + real list) \<Rightarrow> dataframe \<Rightarrow> kernel
     \<Rightarrow> py_error + kernel" where
  "run_all fit file k = py_bind (load_cell file k) (run (cells fit))"

text \<open>
  What a run that started in kernel state \<open>k\<close> has produced: what it showed after what
  was already there, and the variables it leaves.
\<close>

definition report ::
  "kernel \<Rightarrow> py_error + kernel
     \<Rightarrow> py_error + (stdout \<times> real option \<times> glm_result option \<times> dataframe option)" where
  "report k r =
     py_bind r (\<lambda>k'. Inr (drop (length (shown k)) (shown k'), ate k', result k', voucher_df k'))"

subsection \<open>A sample run\<close>

text \<open>
  The first five rows of the table, as the notebook shows them after the load, a newly
  started kernel, and a stand-in for the estimation that returns zero coefficients.
\<close>

definition sample_file :: dataframe where
  "sample_file =
     [(''id'', [3, 4, 5, 6, 10]),
      (''won_lottry'', [1, 0, 0, 0, 1]),
      (''male'', [0, 1, 1, 0, 1]),
      (''base_age'', [11, 11, 11, 9, 11]),
      (''finish8th'', [1, 1, 1, 0, 1]),
      (''use_fin_aid'', [1, 1, 0, 0, 1])]"

definition new_kernel :: kernel where
  "new_kernel = \<lparr>voucher_df = None, ate = None, result = None, shown = []\<rparr>"

definition zero_fit :: "real list list \<Rightarrow> real list \<Rightarrow> py_error + real list" where
  "zero_fit X y = Inr [0, 0, 0, 0]"

subsection \<open>Relations between cells and kernel states\<close>

text \<open>
  \<open>keeps_table c\<close>: the cell \<open>c\<close> leaves \<open>voucher_df\<close> as it found it.
  \<open>agree a r p1 p2 k1 k2\<close>: two kernels hold the same table, the same \<open>ate\<close> if \<open>a\<close> is
  set and the same \<open>result\<close> if \<open>r\<close> is set, and have shown the same after the first
  \<open>p1\<close>, respectively \<open>p2\<close>, items.
\<close>

definition keeps_table :: "(kernel \<Rightarrow> py_error + kernel) \<Rightarrow> bool" where
  "keeps_table c = (\<forall>k k'. c k = Inr k' \<longrightarrow> voucher_df k' = voucher_df k)"

definition agree :: "bool \<Rightarrow> bool \<Rightarrow> nat \<Rightarrow> nat \<Rightarrow> kernel \<Rightarrow> kernel \<Rightarrow> bool" where
  "agree a r p1 p2 k1 k2 =
     (voucher_df k1 = voucher_df k2 \<and>
      (a \<longrightarrow> ate k1 = ate k2) \<and>
      (r \<longrightarrow> result k1 = result k2) \<and>
      p1 \<le> length (shown k1) \<and> p2 \<le> length (shown k2) \<and>
      drop p1 (shown k1) = drop p2 (shown k2))"

section \<open>The helper functions\<close>

subsection \<open>Division and the odds transform\<close>

lemma truediv_nonzero: "b \<noteq> 0 \<Longrightarrow> truediv a b = Inr (a / b)"
  by (simp add: truediv_def)

lemma truediv_zero: "truediv a 0 = Inl ZeroDivisionError"
  by (simp add: truediv_def)

lemma ate_odds_defined:
  assumes "prob0 \<noteq> 1" and "prob1 \<noteq> 1"
  shows "ate_odds prob0 prob1 = Inr (prob1 / (1 - prob1) - prob0 / (1 - prob0))"
  using assms by (simp add: ate_odds_def truediv_nonzero)

lemma ate_odds_raises:
  assumes "prob0 = 1 \<or> prob1 = 1"
  shows "ate_odds prob0 prob1 = Inl ZeroDivisionError"
proof (cases "prob1 = 1")
  case True
  then show ?thesis by (simp add: ate_odds_def truediv_zero)
next
  case False
  with assms have "prob0 = 1" by simp
  with False show ?thesis by (simp add: ate_odds_def truediv_zero truediv_nonzero)
qed

text \<open>The odds transform \<open>p / (1 - p)\<close> is strictly increasing below 1.\<close>

lemma odds_strict_mono:
  fixes p q :: real
  assumes "p < q" and "q < 1"
  shows "p / (1 - p) < q / (1 - q)"
proof -
  have pos: "0 < 1 - p" "0 < 1 - q" using assms by simp_all
  have "p * (1 - q) < q * (1 - p)" using assms by (simp add: algebra_simps)
  with pos show ?thesis by (simp add: divide_simps mult.commute)
qed

lemma odds_mono:
  fixes p q :: real
  assumes "p \<le> q" and "q < 1"
  shows "p / (1 - p) \<le> q / (1 - q)"
proof (cases "p = q")
  case True
  then show ?thesis by simp
next
  case False
  with assms have "p < q" by simp
  then have "p / (1 - p) < q / (1 - q)" using assms(2) by (rule odds_strict_mono)
  then show ?thesis by simp
qed

subsection \<open>The value of \<open>ate_odds_ratio\<close>\<close>

text \<open>
  C1. For probabilities \<open>prob0\<close> and \<open>prob1\<close> strictly between 0 and 1, \<open>ate_odds_ratio\<close>
  does not raise, and the odds value it computes and prints is
  \<open>prob1 / (1 - prob1) - prob0 / (1 - prob0)\<close>.
\<close>

theorem ate_odds_ratio_formula:
  assumes "0 < prob0" and "prob0 < 1" and "0 < prob1" and "prob1 < 1"
  shows "ate_odds prob0 prob1 = Inr (prob1 / (1 - prob1) - prob0 / (1 - prob0)) \<and>
         ate_odds_ratio prob0 prob1 out =
           (Inr PyNone,
            out @ [Formatted ''Odds ratio: {}'' (prob1 / (1 - prob1) - prob0 / (1 - prob0))])"
proof -
  have "prob0 \<noteq> 1" and "prob1 \<noteq> 1" using assms by simp_all
  then have "ate_odds prob0 prob1 = Inr (prob1 / (1 - prob1) - prob0 / (1 - prob0))"
    by (rule ate_odds_defined)
  then show ?thesis by (simp add: ate_odds_ratio_def)
qed

theorem ate_odds_ratio_formula_witness:
  "ate_odds (1 / 4) (1 / 2) = Inr (2 / 3) \<and>
   ate_odds_ratio (1 / 4) (1 / 2) [] = (Inr PyNone, [Formatted ''Odds ratio: {}'' (2 / 3)])"
  using ate_odds_ratio_formula [of "1 / 4" "1 / 2" "[]"] by simp

text \<open>
  C2. When either probability equals 1, \<open>ate_odds_ratio\<close> raises \<open>ZeroDivisionError\<close>
  and prints nothing: no infinite or undefined odds value is produced.
\<close>

theorem ate_odds_ratio_raises:
  assumes "prob0 = 1 \<or> prob1 = 1"
  shows "ate_odds_ratio prob0 prob1 out = (Inl ZeroDivisionError, out)"
  using ate_odds_raises [OF assms] by (simp add: ate_odds_ratio_def)

theorem ate_odds_ratio_raises_witness:
  "ate_odds_ratio 1 (1 / 2) [] = (Inl ZeroDivisionError, []) \<and>
   ate_odds_ratio (1 / 2) 1 [] = (Inl ZeroDivisionError, [])"
  using ate_odds_ratio_raises [of 1 "1 / 2" "[]"] ate_odds_ratio_raises [of "1 / 2" 1 "[]"]
  by simp

text \<open>
  C4. On probabilities strictly between 0 and 1 the odds value of \<open>ate_odds_ratio\<close> is
  defined, increasing in \<open>prob1\<close> with \<open>prob0\<close> fixed and decreasing in \<open>prob0\<close> with
  \<open>prob1\<close> fixed; in exact arithmetic strictly so for distinct arguments.
\<close>

theorem ate_odds_monotone:
  assumes "0 < p0" and "p0 < 1" and "0 < p1" and "p1 < 1"
    and "0 < q0" and "q0 < 1" and "0 < q1" and "q1 < 1"
  shows "\<exists>a b c. ate_odds p0 p1 = Inr a \<and> ate_odds p0 q1 = Inr b \<and> ate_odds q0 p1 = Inr c \<and>
           (p1 \<le> q1 \<longrightarrow> a \<le> b) \<and> (p1 < q1 \<longrightarrow> a < b) \<and>
           (p0 \<le> q0 \<longrightarrow> c \<le> a) \<and> (p0 < q0 \<longrightarrow> c < a)"
proof -
  have ne: "p0 \<noteq> 1" "p1 \<noteq> 1" "q0 \<noteq> 1" "q1 \<noteq> 1" using assms by simp_all
  have m1: "p1 \<le> q1 \<longrightarrow> p1 / (1 - p1) \<le> q1 / (1 - q1)"
    using odds_mono [of p1 q1] assms by simp
  have m2: "p1 < q1 \<longrightarrow> p1 / (1 - p1) < q1 / (1 - q1)"
    using odds_strict_mono [of p1 q1] assms by simp
  have m3: "p0 \<le> q0 \<longrightarrow> p0 / (1 - p0) \<le> q0 / (1 - q0)"
    using odds_mono [of p0 q0] assms by simp
  have m4: "p0 < q0 \<longrightarrow> p0 / (1 - p0) < q0 / (1 - q0)"
    using odds_strict_mono [of p0 q0] assms by simp
  show ?thesis
    using m1 m2 m3 m4 by (simp add: ate_odds_defined ne)
qed

theorem ate_odds_monotone_witness:
  "ate_odds (1 / 4) (1 / 2) = Inr (2 / 3) \<and> ate_odds (1 / 4) (3 / 4) = Inr (8 / 3) \<and>
   ate_odds (1 / 2) (1 / 2) = Inr 0"
  using ate_odds_monotone [of "1 / 4" "1 / 2" "1 / 2" "3 / 4"]
  by (simp add: ate_odds_defined)

subsection \<open>The exponential and the range of doubles\<close>

text \<open>Bounds on \<open>exp\<close> come from its Taylor polynomial with the Lagrange remainder.\<close>

lemma exp_taylor_bounds:
  fixes x :: real
  assumes "0 \<le> x" and "x \<le> 1"
  shows "(\<Sum>m<n. x ^ m / fact m) \<le> exp x"
    and "exp x \<le> (\<Sum>m<n. x ^ m / fact m) + 3 * (x ^ n / fact n)"
proof -
  obtain t where t: "\<bar>t\<bar> \<le> \<bar>x\<bar>"
    and e: "exp x = (\<Sum>m<n. x ^ m / fact m) + exp t / fact n * x ^ n"
    using Maclaurin_exp_le [of x n] by blast
  have e': "exp x = (\<Sum>m<n. x ^ m / fact m) + exp t * (x ^ n / fact n)"
    using e by simp
  have "t \<le> 1" using t assms by simp
  then have "exp t \<le> exp 1" by simp
  also have "\<dots> \<le> 3" by (rule exp_le)
  finally have t3: "exp t \<le> 3" .
  have xn: "0 \<le> x ^ n / fact n" using assms by simp
  have "0 \<le> exp t * (x ^ n / fact n)"
    by (rule mult_nonneg_nonneg) (simp_all add: xn)
  then show "(\<Sum>m<n. x ^ m / fact m) \<le> exp x" using e' by simp
  have "exp t * (x ^ n / fact n) \<le> 3 * (x ^ n / fact n)"
    using t3 xn by (rule mult_right_mono)
  then show "exp x \<le> (\<Sum>m<n. x ^ m / fact m) + 3 * (x ^ n / fact n)" using e' by simp
qed

text \<open>355/512 = 710/1024 and 746/1075 are above ln 2; 709/1024 and 149/215 = 745/1075 below.\<close>

lemma exp_above_two: "2 < exp (355 / 512 :: real)" "2 < exp (746 / 1075 :: real)"
proof -
  have a: "(\<Sum>m<8. (355 / 512 :: real) ^ m / fact m) \<le> exp (355 / 512)"
    by (rule exp_taylor_bounds) simp_all
  have b: "2 < (\<Sum>m<8. (355 / 512 :: real) ^ m / fact m)"
    by (simp add: lessThan_nat_numeral fact_numeral power_divide)
  from a b show "2 < exp (355 / 512 :: real)" by simp
  have c: "(\<Sum>m<8. (746 / 1075 :: real) ^ m / fact m) \<le> exp (746 / 1075)"
    by (rule exp_taylor_bounds) simp_all
  have d: "2 < (\<Sum>m<8. (746 / 1075 :: real) ^ m / fact m)"
    by (simp add: lessThan_nat_numeral fact_numeral power_divide)
  from c d show "2 < exp (746 / 1075 :: real)" by simp
qed

lemma exp_below_two: "exp (709 / 1024 :: real) < 1999 / 1000" "exp (149 / 215 :: real) < 2"
proof -
  have a: "exp (709 / 1024 :: real) \<le>
      (\<Sum>m<10. (709 / 1024) ^ m / fact m) + 3 * ((709 / 1024) ^ 10 / fact 10)"
    by (rule exp_taylor_bounds) simp_all
  have b: "(\<Sum>m<10. (709 / 1024 :: real) ^ m / fact m) + 3 * ((709 / 1024) ^ 10 / fact 10)
      < 1999 / 1000"
    by (simp add: lessThan_nat_numeral fact_numeral power_divide)
  from a b show "exp (709 / 1024 :: real) < 1999 / 1000" by simp
  have c: "exp (149 / 215 :: real) \<le>
      (\<Sum>m<10. (149 / 215) ^ m / fact m) + 3 * ((149 / 215) ^ 10 / fact 10)"
    by (rule exp_taylor_bounds) simp_all
  have d: "(\<Sum>m<10. (149 / 215 :: real) ^ m / fact m) + 3 * ((149 / 215) ^ 10 / fact 10) < 2"
    by (simp add: lessThan_nat_numeral fact_numeral power_divide)
  from c d show "exp (149 / 215 :: real) < 2" by simp
qed

lemma exp_710: "max_double < exp (710 :: real)"
proof -
  have "exp (710 :: real) = exp (355 / 512) ^ 1024"
    using exp_of_nat_mult [of 1024 "355 / 512 :: real"] by simp
  moreover have "(2 :: real) ^ 1024 < exp (355 / 512) ^ 1024"
    by (rule power_strict_mono) (simp_all add: exp_above_two)
  moreover have "max_double < 2 ^ 1024" by (simp add: max_double_def)
  ultimately show ?thesis by simp
qed

lemma exp_minus_746: "exp (- 746 :: real) < underflow_bound"
proof -
  have "exp (746 :: real) = exp (746 / 1075) ^ 1075"
    using exp_of_nat_mult [of 1075 "746 / 1075 :: real"] by simp
  moreover have "(2 :: real) ^ 1075 < exp (746 / 1075) ^ 1075"
    by (rule power_strict_mono) (simp_all add: exp_above_two)
  ultimately have "(2 :: real) ^ 1075 < exp 746" by simp
  then have "inverse (exp (746 :: real)) < inverse (2 ^ 1075)"
    by (rule less_imp_inverse_less) simp
  then show ?thesis by (simp add: underflow_bound_def exp_minus inverse_eq_divide)
qed

lemma exp_709: "exp (709 :: real) \<le> max_double"
proof -
  have e: "exp (709 :: real) = exp (709 / 1024) ^ 1024"
    using exp_of_nat_mult [of 1024 "709 / 1024 :: real"] by simp
  have le: "exp (709 / 1024 :: real) \<le> 1999 / 1000"
    using exp_below_two(1) by (rule less_imp_le)
  have "exp (709 / 1024 :: real) ^ 1024 \<le> (1999 / 1000) ^ 1024"
    using le by (rule power_mono) simp
  also have "\<dots> = (2 * (1999 / 2000 :: real)) ^ 1024" by simp
  also have "\<dots> = 2 ^ 1024 * (1999 / 2000 :: real) ^ 1024"
    by (simp only: power_mult_distrib)
  also have "\<dots> \<le> 2 ^ 1024 * (1999 / 2000 :: real) ^ 1"
    by (intro mult_left_mono power_decreasing) simp_all
  also have "\<dots> \<le> max_double" by (simp add: max_double_def)
  finally show ?thesis using e by simp
qed

lemma exp_minus_745: "underflow_bound \<le> exp (- 745 :: real)"
proof -
  have e: "exp (745 :: real) = exp (149 / 215) ^ 1075"
    using exp_of_nat_mult [of 1075 "149 / 215 :: real"] by simp
  have le: "exp (149 / 215 :: real) \<le> 2"
    using exp_below_two(2) by (rule less_imp_le)
  have "exp (149 / 215 :: real) ^ 1075 \<le> 2 ^ 1075"
    using le by (rule power_mono) simp
  with e have "exp (745 :: real) \<le> 2 ^ 1075" by simp
  then have "inverse (2 ^ 1075) \<le> inverse (exp (745 :: real))"
    by (rule le_imp_inverse_le) simp
  then show ?thesis by (simp add: underflow_bound_def exp_minus inverse_eq_divide)
qed

lemma math_exp_in_range:
  assumes "- 745 \<le> x" and "x \<le> 709"
  shows "math_exp x = Inr (exp x)"
proof -
  have "exp x \<le> exp 709" using assms(2) by simp
  then have hi: "exp x \<le> max_double" using exp_709 by (rule order_trans)
  have "exp (- 745) \<le> exp x" using assms(1) by simp
  with exp_minus_745 have lo: "underflow_bound \<le> exp x" by (rule order_trans)
  from hi lo show ?thesis by (simp add: math_exp_def not_less)
qed

lemma math_exp_zero: "math_exp 0 = Inr 1"
  using math_exp_in_range [of 0] by simp

lemma math_exp_overflow: "max_double < exp x \<Longrightarrow> math_exp x = Inl OverflowError"
  by (simp add: math_exp_def)

lemma math_exp_underflow:
  assumes "x \<le> - 746"
  shows "math_exp x = Inr 0"
proof -
  have "exp x \<le> exp (- 746)" using assms by simp
  then have lo: "exp x < underflow_bound" using exp_minus_746 by (rule le_less_trans)
  have "underflow_bound < max_double" by (simp add: underflow_bound_def max_double_def)
  with lo have "exp x < max_double" by (rule less_trans)
  then have "\<not> max_double < exp x" by (simp add: not_less)
  with lo show ?thesis by (simp add: math_exp_def)
qed

lemma math_exp_value:
  assumes "math_exp x = Inr a"
  shows "a = exp x \<or> a = 0 \<and> exp x < underflow_bound"
  using assms by (auto simp: math_exp_def split: if_splits)

lemma math_exp_mono:
  assumes "x \<le> y" and "math_exp x = Inr a" and "math_exp y = Inr b"
  shows "a \<le> b"
proof -
  have xy: "exp x \<le> exp y" using assms(1) by simp
  from math_exp_value [OF assms(3)] show ?thesis
  proof
    assume b: "b = exp y"
    from math_exp_value [OF assms(2)] have "a \<le> exp x" by auto
    then have "a \<le> exp y" using xy by (rule order_trans)
    with b show ?thesis by (simp only:)
  next
    assume b: "b = 0 \<and> exp y < underflow_bound"
    then have "exp y < underflow_bound" by (rule conjunct2)
    with xy have "exp x < underflow_bound" by (rule le_less_trans)
    with assms(2) have "a = 0" by (auto simp: math_exp_def split: if_splits)
    with b show ?thesis by simp
  qed
qed

subsection \<open>The value of \<open>coefficient_to_odds_ratio\<close>\<close>

text \<open>
  C3, as stated, fails at both ends of the range of doubles. For the coefficient 710 the
  call raises \<open>OverflowError\<close>: no odds value is computed and nothing is printed. For the
  coefficients -800 and -746 the odds value is 0 both times, so it is not strictly
  increasing.
\<close>

theorem coefficient_odds_range_counterexample:
  "coefficient_odds 710 = Inl OverflowError \<and>
   coefficient_to_odds_ratio 710 [] = (Inl OverflowError, []) \<and>
   coefficient_odds (- 800) = Inr 0 \<and>
   coefficient_odds (- 746) = Inr 0"
proof -
  have a: "coefficient_odds 710 = Inl OverflowError"
    unfolding coefficient_odds_def using exp_710 by (rule math_exp_overflow)
  have b: "coefficient_odds (- 800) = Inr 0"
    unfolding coefficient_odds_def by (rule math_exp_underflow) simp
  have c: "coefficient_odds (- 746) = Inr 0"
    unfolding coefficient_odds_def by (rule math_exp_underflow) simp
  from a b c show ?thesis by (simp add: coefficient_to_odds_ratio_def)
qed

text \<open>
  C3, amended. For the coefficient 0 the odds value of \<open>coefficient_to_odds_ratio\<close> is 1.
  The call raises \<open>OverflowError\<close>, computing no odds value, when the exponential of the
  coefficient lies above the largest double; it returns for every coefficient from -745
  to 709; and over the coefficients for which it returns, the odds value is increasing:
  a larger coefficient never gives a smaller odds value.
\<close>

theorem coefficient_odds_increasing:
  "coefficient_odds 0 = Inr 1 \<and>
   coefficient_to_odds_ratio 0 out = (Inr PyNone, out @ [Formatted likely_template 1]) \<and>
   (\<forall>c c' a b. c \<le> c' \<longrightarrow> coefficient_odds c = Inr a \<longrightarrow> coefficient_odds c' = Inr b \<longrightarrow>
      a \<le> b) \<and>
   (\<forall>c. - 745 \<le> c \<and> c \<le> 709 \<longrightarrow> (\<exists>a. coefficient_odds c = Inr a)) \<and>
   (\<forall>c. max_double < exp c \<longrightarrow> coefficient_to_odds_ratio c out = (Inl OverflowError, out))"
proof -
  have zero: "coefficient_odds 0 = Inr 1"
    by (simp add: coefficient_odds_def math_exp_zero)
  have mono: "\<forall>c c' a b. c \<le> c' \<longrightarrow> coefficient_odds c = Inr a \<longrightarrow>
      coefficient_odds c' = Inr b \<longrightarrow> a \<le> b"
    unfolding coefficient_odds_def using math_exp_mono by blast
  have returns: "\<forall>c. - 745 \<le> c \<and> c \<le> 709 \<longrightarrow> (\<exists>a. coefficient_odds c = Inr a)"
    by (simp add: coefficient_odds_def math_exp_in_range)
  have raises: "\<forall>c. max_double < exp c \<longrightarrow>
      coefficient_to_odds_ratio c out = (Inl OverflowError, out)"
    by (simp add: coefficient_to_odds_ratio_def coefficient_odds_def math_exp_overflow)
  from zero mono returns raises show ?thesis
    by (simp add: coefficient_to_odds_ratio_def)
qed

theorem coefficient_odds_increasing_witness:
  "coefficient_odds 0 = Inr 1 \<and> coefficient_odds 1 = Inr (exp 1) \<and> (1 :: real) \<le> exp 1"
proof -
  have le: "(0 :: real) \<le> 1" by simp
  have one: "coefficient_odds 1 = Inr (exp 1)"
    by (simp add: coefficient_odds_def math_exp_in_range)
  have all: "coefficient_odds 0 = Inr 1 \<and>
      coefficient_to_odds_ratio 0 [] = (Inr PyNone, [] @ [Formatted likely_template 1]) \<and>
      (\<forall>c c' a b. c \<le> c' \<longrightarrow> coefficient_odds c = Inr a \<longrightarrow> coefficient_odds c' = Inr b \<longrightarrow>
         a \<le> b) \<and>
      (\<forall>c. - 745 \<le> c \<and> c \<le> 709 \<longrightarrow> (\<exists>a. coefficient_odds c = Inr a)) \<and>
      (\<forall>c. max_double < exp c \<longrightarrow> coefficient_to_odds_ratio c [] = (Inl OverflowError, []))"
    by (rule coefficient_odds_increasing)
  then have zero: "coefficient_odds 0 = Inr 1" by blast
  from all le zero one have "(1 :: real) \<le> exp 1" by blast
  with zero one show ?thesis by simp
qed

subsection \<open>The worked examples\<close>

text \<open>
  A figure quoted to \<open>d\<close> decimal places is taken to approximate a value when the two
  differ by less than one unit of the last place quoted, \<open>1 / 10 ^ d\<close>; both rounding
  and truncating the value to \<open>d\<close> places stay within that distance.
\<close>

lemma exp_naive_coefficient:
  "1.78122 < exp (0.5773 :: real)" "exp (0.5773 :: real) < 1.78123"
proof -
  have a: "(\<Sum>m<10. (0.5773 :: real) ^ m / fact m) \<le> exp 0.5773"
    by (rule exp_taylor_bounds) simp_all
  have b: "exp (0.5773 :: real) \<le> (\<Sum>m<10. 0.5773 ^ m / fact m) + 3 * (0.5773 ^ 10 / fact 10)"
    by (rule exp_taylor_bounds) simp_all
  have c: "1.78122 < (\<Sum>m<10. (0.5773 :: real) ^ m / fact m)"
    by (simp add: lessThan_nat_numeral fact_numeral power_divide)
  have d: "(\<Sum>m<10. (0.5773 :: real) ^ m / fact m) + 3 * (0.5773 ^ 10 / fact 10) < 1.78123"
    by (simp add: lessThan_nat_numeral fact_numeral power_divide)
  from a c show "1.78122 < exp (0.5773 :: real)" by simp
  from b d show "exp (0.5773 :: real) < 1.78123" by simp
qed

lemma exp_second_stage_coefficient:
  "2.16907 < exp (0.7743 :: real)" "exp (0.7743 :: real) < 2.16908"
proof -
  have a: "(\<Sum>m<10. (0.7743 :: real) ^ m / fact m) \<le> exp 0.7743"
    by (rule exp_taylor_bounds) simp_all
  have b: "exp (0.7743 :: real) \<le> (\<Sum>m<10. 0.7743 ^ m / fact m) + 3 * (0.7743 ^ 10 / fact 10)"
    by (rule exp_taylor_bounds) simp_all
  have c: "2.16907 < (\<Sum>m<10. (0.7743 :: real) ^ m / fact m)"
    by (simp add: lessThan_nat_numeral fact_numeral power_divide)
  have d: "(\<Sum>m<10. (0.7743 :: real) ^ m / fact m) + 3 * (0.7743 ^ 10 / fact 10) < 2.16908"
    by (simp add: lessThan_nat_numeral fact_numeral power_divide)
  from a c show "2.16907 < exp (0.7743 :: real)" by simp
  from b d show "exp (0.7743 :: real) < 2.16908" by simp
qed

text \<open>
  C6. \<open>coefficient_to_odds_ratio\<close> computes and prints the exponential of its argument:
  for every coefficient from -745 to 709 it returns with that odds value, and whenever
  it returns, the odds value is the exponential, or 0 for an exponential below the range
  of doubles. For the naive-regression coefficient 0.5773 the odds value is within
  \<open>1 / 10 ^ 4\<close> of 1.7812, and for the second-stage coefficient 0.7743 it is within
  \<open>1 / 10 ^ 4\<close> of 2.1690.
\<close>

theorem coefficient_odds_worked:
  "(- 745 \<le> c \<and> c \<le> 709 \<longrightarrow>
      coefficient_odds c = Inr (exp c) \<and>
      coefficient_to_odds_ratio c out =
        (Inr PyNone, out @ [Formatted likely_template (exp c)])) \<and>
   (\<forall>a. coefficient_odds c = Inr a \<longrightarrow> a = exp c \<or> a = 0 \<and> exp c < underflow_bound) \<and>
   coefficient_odds 0.5773 = Inr (exp 0.5773) \<and>
   \<bar>exp (0.5773 :: real) - 1.7812\<bar> < 1 / 10 ^ 4 \<and>
   coefficient_odds 0.7743 = Inr (exp 0.7743) \<and>
   \<bar>exp (0.7743 :: real) - 2.1690\<bar> < 1 / 10 ^ 4"
proof -
  have range: "- 745 \<le> c \<and> c \<le> 709 \<longrightarrow>
      coefficient_odds c = Inr (exp c) \<and>
      coefficient_to_odds_ratio c out =
        (Inr PyNone, out @ [Formatted likely_template (exp c)])"
    by (simp add: coefficient_to_odds_ratio_def coefficient_odds_def math_exp_in_range)
  have val: "\<forall>a. coefficient_odds c = Inr a \<longrightarrow> a = exp c \<or> a = 0 \<and> exp c < underflow_bound"
    unfolding coefficient_odds_def using math_exp_value by blast
  have naive: "coefficient_odds 0.5773 = Inr (exp 0.5773)"
    unfolding coefficient_odds_def by (rule math_exp_in_range) simp_all
  have second: "coefficient_odds 0.7743 = Inr (exp 0.7743)"
    unfolding coefficient_odds_def by (rule math_exp_in_range) simp_all
  have n: "\<bar>exp (0.5773 :: real) - 1.7812\<bar> < 1 / 10 ^ 4"
    using exp_naive_coefficient by (simp add: abs_less_iff)
  have m: "\<bar>exp (0.7743 :: real) - 2.1690\<bar> < 1 / 10 ^ 4"
    using exp_second_stage_coefficient by (simp add: abs_less_iff)
  from range val naive second n m show ?thesis by blast
qed

theorem coefficient_odds_worked_witness:
  "coefficient_odds (1 / 2) = Inr (exp (1 / 2)) \<and>
   coefficient_to_odds_ratio (1 / 2) [] =
     (Inr PyNone, [Formatted likely_template (exp (1 / 2))])"
  using coefficient_odds_worked [of "1 / 2" "[]"] by simp

text \<open>
  C5, as stated, fails in its second figure: for \<open>prob0 = 0.604082\<close> and
  \<open>prob1 = 0.737151\<close> the odds value of \<open>ate_odds_ratio\<close> is
  \<open>737151 / 262849 - 604082 / 395918\<close>, about 1.27869, which lies more than two units of
  the fourth decimal place below 1.2789.
\<close>

theorem worked_example_odds_counterexample:
  "ate_odds 0.604082 0.737151 = Inr (737151 / 262849 - 604082 / 395918) \<and>
   ate_odds_ratio 0.604082 0.737151 [] =
     (Inr PyNone, [Formatted ''Odds ratio: {}'' (737151 / 262849 - 604082 / 395918)]) \<and>
   2 / 10 ^ 4 < 1.2789 - (737151 / 262849 - 604082 / 395918 :: real) \<and>
   \<not> \<bar>(737151 / 262849 - 604082 / 395918 :: real) - 1.2789\<bar> < 1 / 10 ^ 4"
  by (simp add: ate_odds_ratio_def ate_odds_def truediv_def)

text \<open>
  C5, amended. For the worked example the cell computing \<open>ate\<close> binds it to
  \<open>0.737151 - 0.604082\<close>, which is within \<open>1 / 10 ^ 6\<close> of 0.133069, and the odds value
  of \<open>ate_odds_ratio(0.604082, 0.737151)\<close> is within \<open>1 / 10 ^ 4\<close> of 1.2787.
\<close>

theorem worked_example:
  "ate_cell k =
     Inr (k\<lparr>ate := Some (0.737151 - 0.604082),
            shown := shown k @ [Display_float (0.737151 - 0.604082)]\<rparr>) \<and>
   \<bar>(0.737151 - 0.604082 :: real) - 0.133069\<bar> < 1 / 10 ^ 6 \<and>
   ate_odds 0.604082 0.737151 = Inr (737151 / 262849 - 604082 / 395918) \<and>
   ate_odds_ratio 0.604082 0.737151 out =
     (Inr PyNone, out @ [Formatted ''Odds ratio: {}'' (737151 / 262849 - 604082 / 395918)]) \<and>
   \<bar>(737151 / 262849 - 604082 / 395918 :: real) - 1.2787\<bar> < 1 / 10 ^ 4"
  by (simp add: ate_cell_def Let_def ate_odds_ratio_def ate_odds_def truediv_def)

subsection \<open>What the helpers return\<close>

text \<open>
  C10. Neither helper returns its odds value. \<open>coefficient_to_odds_ratio\<close> returns
  \<open>None\<close> or raises \<open>OverflowError\<close>, and \<open>ate_odds_ratio\<close> returns \<open>None\<close> or
  raises \<open>ZeroDivisionError\<close>; neither returns a float, and when either returns, its
  odds value appears only in the one line it prints.
\<close>

theorem helpers_return_none:
  "(fst (coefficient_to_odds_ratio coefficient out) = Inr PyNone \<or>
    fst (coefficient_to_odds_ratio coefficient out) = Inl OverflowError) \<and>
   (\<forall>odds. coefficient_odds coefficient = Inr odds \<longrightarrow>
      coefficient_to_odds_ratio coefficient out =
        (Inr PyNone, out @ [Formatted likely_template odds])) \<and>
   (fst (ate_odds_ratio prob0 prob1 out) = Inr PyNone \<or>
    fst (ate_odds_ratio prob0 prob1 out) = Inl ZeroDivisionError) \<and>
   (prob0 \<noteq> 1 \<and> prob1 \<noteq> 1 \<longrightarrow>
      ate_odds_ratio prob0 prob1 out =
        (Inr PyNone,
         out @ [Formatted ''Odds ratio: {}'' (prob1 / (1 - prob1) - prob0 / (1 - prob0))]))"
proof -
  have a: "fst (coefficient_to_odds_ratio coefficient out) = Inr PyNone \<or>
      fst (coefficient_to_odds_ratio coefficient out) = Inl OverflowError"
    by (simp add: coefficient_to_odds_ratio_def coefficient_odds_def math_exp_def)
  have a': "\<forall>odds. coefficient_odds coefficient = Inr odds \<longrightarrow>
      coefficient_to_odds_ratio coefficient out =
        (Inr PyNone, out @ [Formatted likely_template odds])"
    by (simp add: coefficient_to_odds_ratio_def)
  have b: "fst (ate_odds_ratio prob0 prob1 out) = Inr PyNone \<or>
      fst (ate_odds_ratio prob0 prob1 out) = Inl ZeroDivisionError"
  proof (cases "prob0 = 1 \<or> prob1 = 1")
    case True
    then show ?thesis by (simp add: ate_odds_ratio_def ate_odds_raises)
  next
    case False
    then show ?thesis by (simp add: ate_odds_ratio_def ate_odds_defined)
  qed
  have c: "prob0 \<noteq> 1 \<and> prob1 \<noteq> 1 \<longrightarrow>
      ate_odds_ratio prob0 prob1 out =
        (Inr PyNone,
         out @ [Formatted ''Odds ratio: {}'' (prob1 / (1 - prob1) - prob0 / (1 - prob0))])"
    by (simp add: ate_odds_ratio_def ate_odds_defined)
  from a a' b c show ?thesis by simp
qed

theorem helpers_return_none_witness:
  "coefficient_to_odds_ratio 0 [] = (Inr PyNone, [Formatted likely_template 1]) \<and>
   ate_odds_ratio (1 / 4) (1 / 2) [] = (Inr PyNone, [Formatted ''Odds ratio: {}'' (2 / 3)])"
  using helpers_return_none [of 0 "[]" "1 / 4" "1 / 2"]
  by (simp add: coefficient_odds_def math_exp_zero)

section \<open>The pipeline\<close>

subsection \<open>Sequencing, the logistic function and column assignment\<close>

lemma py_bind_Inr_iff: "py_bind m f = Inr y \<longleftrightarrow> (\<exists>x. m = Inr x \<and> f x = Inr y)"
  by (cases m) (simp_all add: py_bind_def)

lemma py_bind_Inr: "py_bind (Inr x) f = f x"
  by (simp add: py_bind_def)

lemma py_bind_Inl: "py_bind (Inl e) f = Inl e"
  by (simp add: py_bind_def)

lemma logistic_bounds: "0 < logistic eta \<and> logistic eta < 1"
proof -
  have e: "0 < exp (- eta)" by simp
  then have gt: "1 < 1 + exp (- eta)" by simp
  then have pos: "0 < 1 + exp (- eta)" by linarith
  from pos have "0 < 1 / (1 + exp (- eta))" by simp
  moreover from gt pos have "1 / (1 + exp (- eta)) < 1" by (simp add: divide_less_eq_1_pos)
  ultimately show ?thesis by (simp add: logistic_def)
qed

lemma predict_bounds: "x \<in> set (predict r) \<Longrightarrow> 0 < x \<and> x < 1"
  using logistic_bounds by (auto simp: predict_def)

lemma map_of_set_column:
  "map_of (set_column df name vals) c = (if c = name then Some vals else map_of df c)"
  by (induction df) auto

lemma getitem_set_column_same: "getitem (set_column df name vals) name = Inr vals"
  by (simp add: getitem_def map_of_set_column)

lemma getitem_set_column_other:
  "c \<noteq> name \<Longrightarrow> getitem (set_column df name vals) c = getitem df c"
  by (simp add: getitem_def map_of_set_column)

lemma nrows_set_column:
  assumes "df = [] \<or> length vals = nrows df"
  shows "nrows (set_column df name vals) = length vals"
proof (cases df)
  case Nil
  then show ?thesis by (simp add: nrows_def)
next
  case (Cons a rest)
  with assms show ?thesis by (cases a) (simp add: nrows_def)
qed

lemma setitem_Inr:
  assumes "setitem df name vals = Inr df'"
  shows "df' = set_column df name vals \<and> (df = [] \<or> length vals = nrows df)"
  using assms by (auto simp: setitem_def split: if_splits)

lemma names_set_column_new:
  "name \<notin> fst ` set df \<Longrightarrow> map fst (set_column df name vals) = map fst df @ [name]"
  by (induction df) auto

lemma first_stage_Inr:
  assumes "first_stage fit k = Inr k'"
  shows "\<exists>df r. voucher_df k = Some df \<and> glm_fit fit first_stage_formula df = Inr r \<and>
           (df = [] \<or> length (predict r) = nrows df) \<and>
           voucher_df k' = Some (set_column df fitted_column (predict r)) \<and>
           result k' = Some r"
proof -
  from assms obtain df where df: "table k = Inr df"
    and rest: "py_bind (glm_fit fit first_stage_formula df) (\<lambda>r.
       py_bind (setitem df fitted_column (predict r)) (\<lambda>df'.
         Inr (k\<lparr>voucher_df := Some df', result := Some r,
                shown := shown k @
                  [Line banner, Line ''                                  FIRST STAGE'',
                   Line banner, Summary r]\<rparr>))) = Inr k'"
    unfolding first_stage_def py_bind_Inr_iff by blast
  from rest obtain r df' where r: "glm_fit fit first_stage_formula df = Inr r"
    and s: "setitem df fitted_column (predict r) = Inr df'"
    and k': "k' = k\<lparr>voucher_df := Some df', result := Some r,
                shown := shown k @
                  [Line banner, Line ''                                  FIRST STAGE'',
                   Line banner, Summary r]\<rparr>"
    unfolding py_bind_Inr_iff by blast
  from df have "voucher_df k = Some df" by (simp add: table_def split: option.splits)
  moreover note r
  moreover from setitem_Inr [OF s] have "df' = set_column df fitted_column (predict r)"
    and "df = [] \<or> length (predict r) = nrows df" by simp_all
  ultimately show ?thesis using k' by simp
qed

subsection \<open>The fitted column\<close>

text \<open>
  C7. When the stage-1 cell completes, the table has the column \<open>use_fin_aid_fitted\<close>,
  with one value for every row, and every value in it lies strictly between 0 and 1. The
  fitted values are the logistic function of the linear predictor, whatever coefficients
  the estimation returned.
\<close>

theorem fitted_values_are_probabilities:
  assumes "first_stage fit k = Inr k'"
  shows "\<exists>df col. voucher_df k' = Some df \<and> getitem df fitted_column = Inr col \<and>
           length col = nrows df \<and> (\<forall>x\<in>set col. 0 < x \<and> x < 1)"
proof -
  from first_stage_Inr [OF assms] obtain df r
    where len: "df = [] \<or> length (predict r) = nrows df"
      and tbl: "voucher_df k' = Some (set_column df fitted_column (predict r))"
    by blast
  have "getitem (set_column df fitted_column (predict r)) fitted_column = Inr (predict r)"
    by (rule getitem_set_column_same)
  moreover have "length (predict r) = nrows (set_column df fitted_column (predict r))"
    using nrows_set_column [OF len] by simp
  moreover have "\<forall>x\<in>set (predict r). 0 < x \<and> x < 1"
    using predict_bounds by blast
  ultimately show ?thesis using tbl by blast
qed

lemma sample_first_stage:
  "\<exists>k'. first_stage zero_fit (new_kernel\<lparr>voucher_df := Some sample_file\<rparr>) = Inr k'"
  by (simp add: first_stage_def table_def new_kernel_def sample_file_def py_bind_def
      glm_fit_def lookup_variable_def first_stage_formula_def zero_fit_def setitem_def
      nrows_def predict_def design_matrix_def)

theorem fitted_values_are_probabilities_witness:
  "\<exists>k' df col. first_stage zero_fit (new_kernel\<lparr>voucher_df := Some sample_file\<rparr>) = Inr k' \<and>
     voucher_df k' = Some df \<and> getitem df fitted_column = Inr col \<and>
     length col = nrows df \<and> list_all (\<lambda>x. 0 < x \<and> x < 1) col"
proof -
  from sample_first_stage obtain k'
    where h: "first_stage zero_fit (new_kernel\<lparr>voucher_df := Some sample_file\<rparr>) = Inr k'"
    by blast
  from fitted_values_are_probabilities [OF h] h show ?thesis
    by (simp add: list_all_iff)
qed

subsection \<open>The table across the run\<close>

text \<open>Every cell but the stage-1 cell leaves the table as it found it.\<close>

lemma table_Inr: "table k = Inr df \<longleftrightarrow> voucher_df k = Some df"
  by (simp add: table_def split: option.splits)

lemma keeps_tableI: "(\<And>k k'. c k = Inr k' \<Longrightarrow> voucher_df k' = voucher_df k) \<Longrightarrow> keeps_table c"
  by (simp add: keeps_table_def)

lemma keeps_tableD: "keeps_table c \<Longrightarrow> c k = Inr k' \<Longrightarrow> voucher_df k' = voucher_df k"
  by (simp add: keeps_table_def)

lemma keeps_describe_group: "keeps_table (describe_group i)"
  by (rule keeps_tableI) (auto simp: describe_group_def py_bind_Inr_iff)

lemma keeps_for_each:
  assumes "\<And>i. keeps_table (body i)"
  shows "keeps_table (for_each js body)"
proof (rule keeps_tableI)
  fix k k'
  show "for_each js body k = Inr k' \<Longrightarrow> voucher_df k' = voucher_df k"
  proof (induction js arbitrary: k)
    case Nil
    then show ?case by simp
  next
    case (Cons j js)
    from Cons.prems obtain k1 where a: "body j k = Inr k1" and b: "for_each js body k1 = Inr k'"
      by (auto simp: py_bind_Inr_iff)
    from Cons.IH [OF b] keeps_tableD [OF assms a] show ?case by simp
  qed
qed

lemma keeps_summary_cell: "keeps_table summary_cell"
proof (rule keeps_tableI)
  fix k k'
  assume "summary_cell k = Inr k'"
  then obtain df where run: "for_each [0..<2] describe_group
      (k\<lparr>shown := shown k @
         [Line banner, Line ''                              OVERALL SUMMARY'', Line banner,
          Describe df]\<rparr>) = Inr k'"
    by (auto simp: summary_cell_def py_bind_Inr_iff)
  have "keeps_table (for_each [0..<2] describe_group)"
    by (rule keeps_for_each) (rule keeps_describe_group)
  from keeps_tableD [OF this run] show "voucher_df k' = voucher_df k" by simp
qed

lemma keeps_ate_cell: "keeps_table ate_cell"
  by (rule keeps_tableI) (auto simp: ate_cell_def Let_def)

lemma keeps_ate_odds_cell: "keeps_table ate_odds_cell"
  by (rule keeps_tableI) (auto simp: ate_odds_cell_def split: prod.splits sum.splits)

lemma keeps_naive_cell: "keeps_table (naive_cell fit)"
  by (rule keeps_tableI) (auto simp: naive_cell_def py_bind_Inr_iff)

lemma keeps_odds_cell: "keeps_table odds_cell"
proof (rule keeps_tableI)
  fix k k'
  assume run: "odds_cell k = Inr k'"
  then obtain r c where "result k = Some r" and "params_at r 1 = Inr c"
    and out: "(case coefficient_to_odds_ratio c (shown k) of
        (Inl e, out) \<Rightarrow> Inl e
      | (Inr v, out) \<Rightarrow> Inr (k\<lparr>shown := out\<rparr>)) = Inr k'"
    by (auto simp: odds_cell_def py_bind_Inr_iff split: option.splits)
  from out show "voucher_df k' = voucher_df k"
    by (cases "coefficient_odds c") (auto simp: coefficient_to_odds_ratio_def)
qed

lemma keeps_second_stage: "keeps_table (second_stage fit)"
  by (rule keeps_tableI) (auto simp: second_stage_def py_bind_Inr_iff)

lemma keeps_run:
  assumes "list_all keeps_table cs"
  shows "keeps_table (run cs)"
proof (rule keeps_tableI)
  fix k k'
  show "run cs k = Inr k' \<Longrightarrow> voucher_df k' = voucher_df k"
    using assms
  proof (induction cs arbitrary: k)
    case Nil
    then show ?case by simp
  next
    case (Cons c cs)
    from Cons.prems obtain k1 where a: "c k = Inr k1" and b: "run cs k1 = Inr k'"
      by (auto simp: py_bind_Inr_iff)
    from Cons.prems have c: "keeps_table c" and cs: "list_all keeps_table cs" by simp_all
    from keeps_tableD [OF c a] Cons.IH [OF b cs] show ?case by simp
  qed
qed

lemma run_append: "run (xs @ ys) k = py_bind (run xs k) (run ys)"
  by (induction xs arbitrary: k) (simp_all add: py_bind_def split: sum.splits)

lemma list_all_take: "list_all P xs \<Longrightarrow> list_all P (take n xs)"
  by (auto simp: list_all_iff dest: in_set_takeD)

lemma cells_before: "list_all keeps_table (take 5 (cells fit))"
  by (simp add: cells_def keeps_summary_cell keeps_ate_cell keeps_ate_odds_cell
      keeps_naive_cell keeps_odds_cell)

lemma cells_after: "list_all keeps_table (drop 6 (cells fit))"
  by (simp add: cells_def keeps_second_stage keeps_odds_cell)

lemma cells_split:
  assumes "6 \<le> n"
  shows "take n (cells fit) =
           take 5 (cells fit) @ first_stage fit # take (n - 6) (drop 6 (cells fit))"
proof -
  have c: "cells fit = take 5 (cells fit) @ first_stage fit # drop 6 (cells fit)"
    by (simp add: cells_def)
  have l: "length (take 5 (cells fit)) = 5" by (simp add: cells_def)
  define m where "m = n - 6"
  have m: "n - 5 = Suc m" and m': "n - 6 = m" using assms by (simp_all add: m_def)
  have "take n (cells fit) =
      take n (take 5 (cells fit) @ first_stage fit # drop 6 (cells fit))"
    using c by simp
  also have "\<dots> = take 5 (cells fit) @ take (n - 5) (first_stage fit # drop 6 (cells fit))"
    using assms l by (simp add: take_append)
  also have "\<dots> = take 5 (cells fit) @ first_stage fit # take (n - 6) (drop 6 (cells fit))"
    using m m' by simp
  finally show ?thesis .
qed

lemma load_cell_Inr:
  "load_cell file k = Inr k0 \<Longrightarrow> voucher_df k0 = Some file"
  by (auto simp: load_cell_def)

text \<open>
  C8. From the load on, after any number \<open>n\<close> of the following cells, the table is the
  loaded one except for the column \<open>use_fin_aid_fitted\<close>: every other column reads as
  it did in the file. Before the stage-1 cell (the sixth) the table is the file itself;
  from that cell on it is the file with the stage-1 predictions assigned to
  \<open>use_fin_aid_fitted\<close>, the same table after every later cell, so the column is
  assigned once and not changed again. If the file had no column of that name, it is
  added after the last column.
\<close>

theorem table_only_gains_fitted_column:
  assumes "py_bind (load_cell file k) (run (take n (cells fit))) = Inr kn"
  shows "\<exists>df. voucher_df kn = Some df \<and>
           (\<forall>c. c \<noteq> fitted_column \<longrightarrow> getitem df c = getitem file c) \<and>
           (n < 6 \<longrightarrow> df = file) \<and>
           (6 \<le> n \<longrightarrow>
              (\<exists>r. glm_fit fit first_stage_formula file = Inr r \<and>
                   df = set_column file fitted_column (predict r))) \<and>
           (6 \<le> n \<and> fitted_column \<notin> fst ` set file \<longrightarrow>
              map fst df = map fst file @ [fitted_column])"
proof -
  from assms obtain k0 where k0: "load_cell file k = Inr k0"
    and run: "run (take n (cells fit)) k0 = Inr kn"
    by (auto simp: py_bind_Inr_iff)
  have t0: "voucher_df k0 = Some file" using k0 by (rule load_cell_Inr)
  show ?thesis
  proof (cases "n < 6")
    case True
    then have "take n (cells fit) = take n (take 5 (cells fit))" by (simp add: min_def)
    then have "list_all keeps_table (take n (cells fit))"
      using list_all_take [OF cells_before, of n fit] by simp
    then have "keeps_table (run (take n (cells fit)))" by (rule keeps_run)
    from keeps_tableD [OF this run] t0 have "voucher_df kn = Some file" by simp
    with True show ?thesis by simp
  next
    case False
    then have n: "6 \<le> n" by simp
    from run obtain k5 k6 where pre: "run (take 5 (cells fit)) k0 = Inr k5"
      and fs: "first_stage fit k5 = Inr k6"
      and post: "run (take (n - 6) (drop 6 (cells fit))) k6 = Inr kn"
      unfolding cells_split [OF n] run_append by (auto simp: py_bind_Inr_iff)
    have "keeps_table (run (take 5 (cells fit)))"
      using cells_before by (rule keeps_run)
    from keeps_tableD [OF this pre] t0 have t5: "voucher_df k5 = Some file" by simp
    from first_stage_Inr [OF fs] t5 obtain r
      where r: "glm_fit fit first_stage_formula file = Inr r"
        and t6: "voucher_df k6 = Some (set_column file fitted_column (predict r))"
      by auto
    have "keeps_table (run (take (n - 6) (drop 6 (cells fit))))"
      using list_all_take [OF cells_after] by (rule keeps_run)
    from keeps_tableD [OF this post] t6
    have tn: "voucher_df kn = Some (set_column file fitted_column (predict r))" by simp
    show ?thesis
      using tn r n by (simp add: getitem_set_column_other names_set_column_new)
  qed
qed

lemma sample_run:
  "\<exists>kn. py_bind (load_cell sample_file new_kernel) (run (take 8 (cells zero_fit))) = Inr kn"
  by (simp add: cells_def load_cell_def summary_cell_def describe_group_def table_def
      new_kernel_def sample_file_def py_bind_def getitem_def ate_cell_def ate_odds_cell_def
      ate_odds_ratio_def ate_odds_def truediv_def naive_cell_def naive_formula_def
      glm_fit_def lookup_variable_def zero_fit_def odds_cell_def params_at_def
      coefficient_to_odds_ratio_def coefficient_odds_def math_exp_zero
      first_stage_def first_stage_formula_def setitem_def nrows_def predict_def
      design_matrix_def second_stage_def second_stage_formula_def fitted_column_def
      numeral_2_eq_2 Let_def)

theorem table_only_gains_fitted_column_witness:
  "\<exists>kn df r.
     py_bind (load_cell sample_file new_kernel) (run (take 8 (cells zero_fit))) = Inr kn \<and>
     voucher_df kn = Some df \<and>
     getitem df ''finish8th'' = Inr [1, 1, 1, 0, 1] \<and>
     glm_fit zero_fit first_stage_formula sample_file = Inr r \<and>
     df = set_column sample_file fitted_column (predict r) \<and>
     map fst df =
       [''id'', ''won_lottry'', ''male'', ''base_age'', ''finish8th'', ''use_fin_aid'',
        ''use_fin_aid_fitted'']"
proof -
  from sample_run obtain kn
    where h: "py_bind (load_cell sample_file new_kernel) (run (take 8 (cells zero_fit))) = Inr kn"
    by blast
  have new: "fitted_column \<notin> fst ` set sample_file"
    by (simp add: fitted_column_def sample_file_def)
  have other: "''finish8th'' \<noteq> fitted_column" by (simp add: fitted_column_def)
  from table_only_gains_fitted_column [OF h] obtain df r
    where "voucher_df kn = Some df"
      and "getitem df ''finish8th'' = getitem sample_file ''finish8th''"
      and "glm_fit zero_fit first_stage_formula sample_file = Inr r"
      and "df = set_column sample_file fitted_column (predict r)"
      and "map fst df = map fst sample_file @ [fitted_column]"
    using new other by auto
  with h show ?thesis
    by (simp add: sample_file_def getitem_def fitted_column_def)
qed

subsection \<open>Two runs on the same table\<close>

text \<open>
  Each cell takes kernels that agree to kernels that agree: it reads the table, and reads
  \<open>result\<close> only after a regression of the same run has bound it.
\<close>

lemma py_bind_rel:
  assumes "rel_sum (=) R m1 m2"
    and "\<And>x y. R x y \<Longrightarrow> rel_sum (=) S (f x) (g y)"
  shows "rel_sum (=) S (py_bind m1 f) (py_bind m2 g)"
  using assms by (cases m1; cases m2) (simp_all add: py_bind_def)

lemma agree_table: "agree a r p1 p2 k1 k2 \<Longrightarrow> table k1 = table k2"
  by (simp add: agree_def table_def)

lemma agree_shown:
  assumes "agree a r p1 p2 k1 k2"
  shows "agree a r p1 p2 (k1\<lparr>shown := shown k1 @ new\<rparr>) (k2\<lparr>shown := shown k2 @ new\<rparr>)"
  using assms by (simp add: agree_def)

lemma agree_load:
  "rel_sum (=) (agree False False (length (shown k1)) (length (shown k2)))
     (load_cell file k1) (load_cell file k2)"
  by (simp add: load_cell_def agree_def)

lemma agree_describe_group:
  assumes "agree a r p1 p2 k1 k2"
  shows "rel_sum (=) (agree a r p1 p2) (describe_group i k1) (describe_group i k2)"
proof (cases "table k2")
  case (Inl e)
  then show ?thesis using agree_table [OF assms] by (simp add: describe_group_def py_bind_def)
next
  case (Inr df)
  show ?thesis
  proof (cases "getitem df ''use_fin_aid''")
    case (Inl e)
    then show ?thesis
      using Inr agree_table [OF assms] by (simp add: describe_group_def py_bind_def)
  next
    case col: (Inr col)
    then show ?thesis
      using Inr agree_table [OF assms] agree_shown [OF assms]
      by (simp add: describe_group_def py_bind_def)
  qed
qed

lemma agree_for_each:
  assumes "\<And>i k1 k2. R k1 k2 \<Longrightarrow> rel_sum (=) R (body i k1) (body i k2)"
    and "R k1 k2"
  shows "rel_sum (=) R (for_each js body k1) (for_each js body k2)"
  using assms(2)
proof (induction js arbitrary: k1 k2)
  case Nil
  then show ?case by simp
next
  case (Cons j js)
  show ?case
    unfolding for_each.simps
    by (rule py_bind_rel [where R = R]) (rule assms(1) [OF Cons.prems], rule Cons.IH)
qed

lemma agree_summary_cell:
  assumes "agree a r p1 p2 k1 k2"
  shows "rel_sum (=) (agree a r p1 p2) (summary_cell k1) (summary_cell k2)"
proof (cases "table k2")
  case (Inl e)
  then show ?thesis using agree_table [OF assms] by (simp add: summary_cell_def py_bind_def)
next
  case (Inr df)
  have "rel_sum (=) (agree a r p1 p2)
      (for_each [0..<2] describe_group
         (k1\<lparr>shown := shown k1 @
            [Line banner, Line ''                              OVERALL SUMMARY'', Line banner,
             Describe df]\<rparr>))
      (for_each [0..<2] describe_group
         (k2\<lparr>shown := shown k2 @
            [Line banner, Line ''                              OVERALL SUMMARY'', Line banner,
             Describe df]\<rparr>))"
    by (rule agree_for_each [where R = "agree a r p1 p2"])
      (rule agree_describe_group, assumption, rule agree_shown [OF assms])
  then show ?thesis
    using Inr agree_table [OF assms] by (simp add: summary_cell_def py_bind_def)
qed

lemma agree_ate_cell:
  assumes "agree a r p1 p2 k1 k2"
  shows "rel_sum (=) (agree True r p1 p2) (ate_cell k1) (ate_cell k2)"
  using assms by (simp add: ate_cell_def Let_def agree_def)

lemma agree_ate_odds_cell:
  assumes "agree a r p1 p2 k1 k2"
  shows "rel_sum (=) (agree a r p1 p2) (ate_odds_cell k1) (ate_odds_cell k2)"
  using assms
  by (cases "ate_odds 0.604082 0.737151")
    (simp_all add: ate_odds_cell_def ate_odds_ratio_def agree_def)

lemma agree_naive_cell:
  assumes "agree a r p1 p2 k1 k2"
  shows "rel_sum (=) (agree a True p1 p2) (naive_cell fit k1) (naive_cell fit k2)"
proof (cases "table k2")
  case (Inl e)
  then show ?thesis using agree_table [OF assms] by (simp add: naive_cell_def py_bind_def)
next
  case (Inr df)
  then show ?thesis
    using agree_table [OF assms] assms
    by (cases "glm_fit fit naive_formula df") (simp_all add: naive_cell_def py_bind_def agree_def)
qed

lemma agree_odds_cell:
  assumes "agree a True p1 p2 k1 k2"
  shows "rel_sum (=) (agree a True p1 p2) (odds_cell k1) (odds_cell k2)"
proof -
  from assms have res: "result k1 = result k2" by (simp add: agree_def)
  show ?thesis
  proof (cases "result k2")
    case None
    then show ?thesis using res by (simp add: odds_cell_def)
  next
    case (Some rr)
    then show ?thesis
      using res assms
      by (cases "params_at rr 1")
        (simp_all add: odds_cell_def py_bind_def coefficient_to_odds_ratio_def agree_def
          split: sum.splits)
  qed
qed

lemma agree_first_stage:
  assumes "agree a r p1 p2 k1 k2"
  shows "rel_sum (=) (agree a True p1 p2) (first_stage fit k1) (first_stage fit k2)"
proof (cases "table k2")
  case (Inl e)
  then show ?thesis using agree_table [OF assms] by (simp add: first_stage_def py_bind_def)
next
  case (Inr df)
  show ?thesis
  proof (cases "glm_fit fit first_stage_formula df")
    case (Inl e)
    then show ?thesis
      using Inr agree_table [OF assms] by (simp add: first_stage_def py_bind_def)
  next
    case fit: (Inr rr)
    then show ?thesis
      using Inr agree_table [OF assms] assms
      by (cases "setitem df fitted_column (predict rr)")
        (simp_all add: first_stage_def py_bind_def agree_def)
  qed
qed

lemma agree_second_stage:
  assumes "agree a r p1 p2 k1 k2"
  shows "rel_sum (=) (agree a True p1 p2) (second_stage fit k1) (second_stage fit k2)"
proof (cases "table k2")
  case (Inl e)
  then show ?thesis using agree_table [OF assms] by (simp add: second_stage_def py_bind_def)
next
  case (Inr df)
  then show ?thesis
    using agree_table [OF assms] assms
    by (cases "glm_fit fit second_stage_formula df")
      (simp_all add: second_stage_def py_bind_def agree_def)
qed

lemma agree_cells:
  assumes "agree False False p1 p2 k1 k2"
  shows "rel_sum (=) (agree True True p1 p2) (run (cells fit) k1) (run (cells fit) k2)"
  unfolding cells_def run.simps
  apply (rule py_bind_rel [OF agree_summary_cell [OF assms]])
  apply (rule py_bind_rel [OF agree_ate_cell], assumption)
  apply (rule py_bind_rel [OF agree_ate_odds_cell], assumption)
  apply (rule py_bind_rel [OF agree_naive_cell], assumption)
  apply (rule py_bind_rel [OF agree_odds_cell], assumption)
  apply (rule py_bind_rel [OF agree_first_stage], assumption)
  apply (rule py_bind_rel [OF agree_second_stage], assumption)
  apply (rule py_bind_rel [OF agree_odds_cell], assumption)
  apply simp
  done

lemma load_cell_shown: "load_cell file k = Inr k0 \<Longrightarrow> length (shown k) \<le> length (shown k0)"
  by (auto simp: load_cell_def)

text \<open>
  C9. Two runs of the whole notebook on the same loaded table, with the same estimation
  procedure, produce the same report, whatever state the kernel was in before each run:
  both raise the same exception, or both complete and have shown the same items (the
  descriptive statistics, the \<open>ate\<close> value, the odds values, the regression summaries)
  and leave the same \<open>ate\<close>, the same \<open>result\<close> with its coefficients, and the same
  table.
\<close>

theorem rerun_gives_same_report:
  "report k1 (run_all fit file k1) = report k2 (run_all fit file k2)"
proof -
  have "rel_sum (=) (agree True True (length (shown k1)) (length (shown k2)))
      (run_all fit file k1) (run_all fit file k2)"
    unfolding run_all_def
    by (rule py_bind_rel [OF agree_load]) (rule agree_cells)
  then show ?thesis
    by (cases "run_all fit file k1"; cases "run_all fit file k2")
      (simp_all add: report_def py_bind_def agree_def)
qed

theorem rerun_gives_same_report_witness:
  "\<exists>rep.
     report new_kernel (run_all zero_fit sample_file new_kernel) = Inr rep \<and>
     report (new_kernel\<lparr>ate := Some 7, shown := [Line ''earlier'']\<rparr>)
       (run_all zero_fit sample_file (new_kernel\<lparr>ate := Some 7, shown := [Line ''earlier'']\<rparr>)) =
       Inr rep"
proof -
  have all: "take 8 (cells zero_fit) = cells zero_fit" by (simp add: cells_def)
  from sample_run obtain kn where "run_all zero_fit sample_file new_kernel = Inr kn"
    unfolding run_all_def all by blast
  then have "\<exists>rep. report new_kernel (run_all zero_fit sample_file new_kernel) = Inr rep"
    by (simp add: report_def py_bind_def)
  then show ?thesis
    using rerun_gives_same_report
      [of new_kernel zero_fit sample_file "new_kernel\<lparr>ate := Some 7, shown := [Line ''earlier'']\<rparr>"]
    by auto
qed

end
